theory Spec2Isabelle
  imports Main "HOL-Library.Char_ord" "HOL-Library.List_Lexorder" "HOL-Library.Multiset"
begin

section \<open>JavaScript primitives used by the sources\<close>

text \<open>
  Strings are compared by \<open><\<close> code unit by code unit, a proper prefix being smaller:
  the lexicographic order of \<open>HOL-Library.List_Lexorder\<close> over the character order of
  \<open>HOL-Library.Char_ord\<close>.

  \<open>Array.prototype.join\<close>: the elements separated by the separator, the empty string for
  the empty array.
\<close>

fun join :: "string \<Rightarrow> string list \<Rightarrow> string" where
  "join sep [] = []"
| "join sep [x] = x"
| "join sep (x # y # ys) = x @ sep @ join sep (y # ys)"

text \<open>
  The template literal \<open>`${n}`\<close> of a number holding an integer: its decimal digits, with a
  leading minus sign when it is negative.
\<close>

definition digitChar :: "nat \<Rightarrow> char" where
  "digitChar d = ''0123456789'' ! d"

fun digits :: "nat \<Rightarrow> string" where
  "digits n = (if n < 10 then [digitChar n] else digits (n div 10) @ [digitChar (n mod 10)])"

declare digits.simps [simp del]

definition numberToString :: "int \<Rightarrow> string" where
  "numberToString i = (if i < 0 then CHR ''-'' # digits (nat (- i)) else digits (nat i))"

text \<open>
  \<open>Array.prototype.sort(comparefn)\<close>: the comparator returns a negative number when its
  first argument goes first. The model is the stable insertion sort: each element, in
  array order, goes before the first element of the sorted part that it precedes. Where
  the comparator is a consistent order every sorting algorithm gives this result; where
  it is not, ECMAScript leaves the order to the engine, and the model is one such choice.
\<close>

fun insertBy :: "('a \<Rightarrow> 'a \<Rightarrow> int) \<Rightarrow> 'a \<Rightarrow> 'a list \<Rightarrow> 'a list" where
  "insertBy comparefn x [] = [x]"
| "insertBy comparefn x (y # ys) =
     (if comparefn x y < 0 then x # y # ys else y # insertBy comparefn x ys)"

definition sortBy :: "('a \<Rightarrow> 'a \<Rightarrow> int) \<Rightarrow> 'a list \<Rightarrow> 'a list" where
  "sortBy comparefn xs = foldl (\<lambda>sorted x. insertBy comparefn x sorted) [] xs"

section \<open>The unit formatter\<close>

text \<open>
  A \<open>SymbolAndExponent\<close> is the pair \<open>[symbol, exponent]\<close>. A \<open>UnitWithSymbols\<close> is an
  object from dimension names to such pairs, where an entry may hold \<open>undefined\<close>: an
  association list in the enumeration order of \<open>Object.keys\<close>, \<open>None\<close> for \<open>undefined\<close>.
  The keys of an object are distinct.
\<close>

type_synonym SymbolAndExponent = "string \<times> int"

type_synonym UnitWithSymbols = "(string \<times> SymbolAndExponent option) list"

definition objectKeys :: "UnitWithSymbols \<Rightarrow> string list" where
  "objectKeys unit = map fst unit"

text \<open>\<open>unit[dimension]\<close>: \<open>undefined\<close> for a missing key as for an entry holding \<open>undefined\<close>.\<close>

definition getDimension :: "UnitWithSymbols \<Rightarrow> string \<Rightarrow> SymbolAndExponent option" where
  "getDimension unit dimension = (case map_of unit dimension of None \<Rightarrow> None | Some d \<Rightarrow> d)"

definition isDimensionPresent :: "SymbolAndExponent option \<Rightarrow> bool" where
  "isDimensionPresent dimension = (case dimension of None \<Rightarrow> False | Some d \<Rightarrow> snd d \<noteq> 0)"

definition orderDimensions :: "SymbolAndExponent \<Rightarrow> SymbolAndExponent \<Rightarrow> int" where
  "orderDimensions l r = (if fst l < fst r then - 1 else 1)"

definition formatDimension :: "SymbolAndExponent \<Rightarrow> string" where
  "formatDimension d =
     (let exponentStr = (if snd d \<noteq> 1 then CHR ''^'' # numberToString (snd d) else [])
      in fst d @ exponentStr)"

definition formatDimensions :: "SymbolAndExponent list \<Rightarrow> string" where
  "formatDimensions dimensions = join '' * '' (map formatDimension dimensions)"

definition negateDimension :: "SymbolAndExponent \<Rightarrow> SymbolAndExponent" where
  "negateDimension d = (fst d, - snd d)"

definition maybeParenthesize :: "string \<Rightarrow> bool \<Rightarrow> string" where
  "maybeParenthesize text parenthesize = (if parenthesize then ''('' @ text @ '')'' else text)"

text \<open>
  The local constants of \<open>formatUnit\<close>: \<open>dimensions\<close> (here first without the final sort,
  then with it), \<open>positive\<close> and \<open>negative\<close>. The type guard \<open>isDimensionPresent\<close> narrows
  the filtered entries to pairs, which \<open>the\<close> reads off.
\<close>

definition presentOf :: "UnitWithSymbols \<Rightarrow> SymbolAndExponent list" where
  "presentOf unit =
     map the (filter isDimensionPresent (map (getDimension unit) (objectKeys unit)))"

definition dimensionsOf :: "UnitWithSymbols \<Rightarrow> SymbolAndExponent list" where
  "dimensionsOf unit = sortBy orderDimensions (presentOf unit)"

definition positiveOf :: "UnitWithSymbols \<Rightarrow> SymbolAndExponent list" where
  "positiveOf unit = filter (\<lambda>d. snd d > 0) (dimensionsOf unit)"

definition negativeOf :: "UnitWithSymbols \<Rightarrow> SymbolAndExponent list" where
  "negativeOf unit = filter (\<lambda>d. snd d < 0) (dimensionsOf unit)"

definition formatUnit :: "UnitWithSymbols \<Rightarrow> string" where
  "formatUnit unit =
     (let dimensions = dimensionsOf unit in
      if length dimensions = 0 then []
      else
        let positive = positiveOf unit; negative = negativeOf unit in
        if length positive = 0 then formatDimensions negative
        else
          let numerator = formatDimensions positive in
          if length negative = 0 then numerator
          else
            let denominator = formatDimensions (map negateDimension negative)
            in numerator @ '' / '' @ maybeParenthesize denominator (length negative \<noteq> 1))"

section \<open>The generator of the exponent operator types\<close>

text \<open>
  \<open>Array.prototype.indexOf\<close>: the first index holding the element, \<open>-1\<close> when there is none.
\<close>

fun indexOf :: "'a list \<Rightarrow> 'a \<Rightarrow> int" where
  "indexOf [] x = - 1"
| "indexOf (y # ys) x =
     (if y = x then 0 else (let i = indexOf ys x in if i = - 1 then - 1 else i + 1))"

text \<open>
  The options of one operator. The numbers are of any type \<open>'n\<close>; \<open>specialCases\<close> is an
  object from left exponents to type expressions, \<open>None\<close> where \<open>left in specialCases\<close> is
  false.
\<close>

record 'n OperatorCodeGenOptions =
  specialCases :: "'n \<Rightarrow> string option"
  compute :: "'n \<Rightarrow> 'n \<Rightarrow> 'n"
  curriedTypeNamePrefix :: string

text \<open>
  The names imported from the module \<open>./common\<close>, whose source is not part of the
  development: they are parameters of the model.
\<close>

record 'n common =
  EXPONENTS :: "'n list"
  genFileHeader :: "string list"
  genImport :: "string list \<Rightarrow> string \<Rightarrow> string"
  genUncurriedTypeName :: "'n OperatorCodeGenOptions \<Rightarrow> string \<Rightarrow> string \<Rightarrow> string"
  genValueName :: "'n \<Rightarrow> string"
  indent :: "string \<Rightarrow> string"

text \<open>
  In all functions of the generator the first parameter \<open>str\<close> is the conversion of a
  number to a string that a template literal \<open>`${n}`\<close> performs.
\<close>

definition genImports :: "'n common \<Rightarrow> string list" where
  "genImports c = [genImport c [''ArithmeticError'', ''Exponent''] ''./common'', '''']"

definition genCurriedTypeName :: "'n common \<Rightarrow> 'n OperatorCodeGenOptions \<Rightarrow> 'n \<Rightarrow> string" where
  "genCurriedTypeName c options v = curriedTypeNamePrefix options @ genValueName c v"

definition genErrorCase :: "'n common \<Rightarrow> string" where
  "genErrorCase c = indent c '': ArithmeticError;''"

text \<open>The loop of \<open>genUncurriedType\<close>: the exponents left to visit, \<open>first\<close> and \<open>lines\<close>.\<close>

fun genUncurriedType_loop ::
  "('n \<Rightarrow> string) \<Rightarrow> 'n common \<Rightarrow> 'n OperatorCodeGenOptions \<Rightarrow> 'n list \<Rightarrow> bool \<Rightarrow> string list
   \<Rightarrow> string list" where
  "genUncurriedType_loop str c options [] first lines = lines"
| "genUncurriedType_loop str c options (left # rest) first lines =
     (let operator = (if first then ''='' else '':'');
          prefix = indent c (operator @ '' L extends '' @ str left @ '' ?'')
      in case specialCases options left of
           Some expression \<Rightarrow>
             genUncurriedType_loop str c options rest False (lines @ [prefix @ '' '' @ expression])
         | None \<Rightarrow>
             genUncurriedType_loop str c options rest False
               (lines @ [prefix @ '' '' @ genCurriedTypeName c options left @ ''<R>'']))"

definition genUncurriedType ::
  "('n \<Rightarrow> string) \<Rightarrow> 'n common \<Rightarrow> 'n OperatorCodeGenOptions \<Rightarrow> string list" where
  "genUncurriedType str c options =
     (let lines = [''export type '' @
                   genUncurriedTypeName c options ''L extends Exponent'' ''R extends Exponent''];
          lines = genUncurriedType_loop str c options (EXPONENTS c) True lines;
          lines = lines @ [genErrorCase c];
          lines = lines @ ['''']
      in lines)"

text \<open>The loop of \<open>genCurriedType\<close>: the right exponents left to visit, \<open>first\<close> and \<open>lines\<close>.\<close>

fun genCurriedType_loop ::
  "('n \<Rightarrow> string) \<Rightarrow> 'n common \<Rightarrow> 'n OperatorCodeGenOptions \<Rightarrow> 'n \<Rightarrow> 'n list \<Rightarrow> bool
   \<Rightarrow> string list \<Rightarrow> string list" where
  "genCurriedType_loop str c options left [] first lines = lines"
| "genCurriedType_loop str c options left (right # rest) first lines =
     (let result = compute options left right in
      if indexOf (EXPONENTS c) result \<noteq> - 1 then
        (let operator = (if first then ''='' else '':'')
         in genCurriedType_loop str c options left rest False
              (lines @ [indent c (operator @ '' N extends '' @ str right @ '' ? '' @ str result)]))
      else genCurriedType_loop str c options left rest first lines)"

definition genCurriedType ::
  "('n \<Rightarrow> string) \<Rightarrow> 'n common \<Rightarrow> 'n OperatorCodeGenOptions \<Rightarrow> 'n \<Rightarrow> string list" where
  "genCurriedType str c options left =
     (let lines = [''export type '' @ genCurriedTypeName c options left @ ''<N extends Exponent>''];
          lines = genCurriedType_loop str c options left (EXPONENTS c) True lines;
          lines = lines @ [genErrorCase c];
          lines = lines @ ['''']
      in lines)"

fun genOperatorTypes_loop ::
  "('n \<Rightarrow> string) \<Rightarrow> 'n common \<Rightarrow> 'n OperatorCodeGenOptions \<Rightarrow> 'n list \<Rightarrow> string list
   \<Rightarrow> string list" where
  "genOperatorTypes_loop str c options [] lines = lines"
| "genOperatorTypes_loop str c options (left # rest) lines =
     (if specialCases options left = None
      then genOperatorTypes_loop str c options rest (lines @ genCurriedType str c options left)
      else genOperatorTypes_loop str c options rest lines)"

definition genOperatorTypes ::
  "('n \<Rightarrow> string) \<Rightarrow> 'n common \<Rightarrow> 'n OperatorCodeGenOptions \<Rightarrow> string" where
  "genOperatorTypes str c options =
     (let lines = genFileHeader c @ genImports c @ genUncurriedType str c options;
          lines = genOperatorTypes_loop str c options (EXPONENTS c) lines
      in join [CHR 0x0A] lines)"

subsection \<open>The generator that inlines the lookup\<close>

text \<open>
  The second generator takes the exponents from \<open>getExponents(spec)\<close> and tests a result
  with \<open>isExponent(result, spec)\<close>; both come from \<open>./common\<close> and are parameters here. Its
  own \<open>indent\<close> is \<open>indent_inline\<close>, its \<open>genCurriedType\<close> is \<open>genCurriedType_inline\<close>.
\<close>

record 'n IOperatorSpec =
  spec_compute :: "'n \<Rightarrow> 'n \<Rightarrow> 'n"
  spec_specialCases :: "'n \<Rightarrow> string option"

definition indent_inline :: "string \<Rightarrow> string" where
  "indent_inline line = ''    '' @ line"

fun genCurriedType_inline_loop ::
  "('n \<Rightarrow> string) \<Rightarrow> ('n \<Rightarrow> 'n IOperatorSpec \<Rightarrow> bool) \<Rightarrow> 'n IOperatorSpec \<Rightarrow> 'n \<Rightarrow> 'n list
   \<Rightarrow> string list \<Rightarrow> string list" where
  "genCurriedType_inline_loop str isExponent spec left [] lines = lines"
| "genCurriedType_inline_loop str isExponent spec left (right # rest) lines =
     (let result = spec_compute spec left right in
      if isExponent result spec
      then genCurriedType_inline_loop str isExponent spec left rest
             (lines @ [indent_inline (''R extends '' @ str right @ '' ? '' @ str result @ '' :'')])
      else genCurriedType_inline_loop str isExponent spec left rest lines)"

definition genCurriedType_inline ::
  "('n \<Rightarrow> string) \<Rightarrow> ('n \<Rightarrow> 'n IOperatorSpec \<Rightarrow> bool) \<Rightarrow> 'n IOperatorSpec \<Rightarrow> 'n list \<Rightarrow> 'n
   \<Rightarrow> string list" where
  "genCurriedType_inline str isExponent spec exponents left =
     (let lines = [''(''];
          lines = genCurriedType_inline_loop str isExponent spec left exponents lines;
          lines = lines @ [indent_inline ''never''];
          lines = lines @ ['')'']
      in map indent_inline (map indent_inline lines))"

subsection \<open>Reading the generated conditional types\<close>

text \<open>
  The declaration that \<open>genCurriedType\<close> emits,
  \<^verbatim>\<open>export type T<N extends Exponent> = N extends r1 ? v1 : N extends r2 ? v2 : D;\<close>
  one alternative a line, maps the literal type \<open>n\<close> to the \<open>v\<close> of the first alternative
  whose \<open>r\<close> is \<open>n\<close>, and to the default \<open>D\<close> when there is none. \<open>readCurriedType\<close> reads this
  entry off the emitted lines: the first alternative must start with \<open>=\<close>, the later ones
  and the default with \<open>:\<close>; the result is \<open>None\<close> for lines that are no such declaration.
\<close>

definition stripIndent :: "string \<Rightarrow> string" where
  "stripIndent line = dropWhile (\<lambda>ch. ch = CHR '' '') line"

definition startsWith :: "string \<Rightarrow> string \<Rightarrow> bool" where
  "startsWith s p = (take (length p) s = p)"

definition endsWith :: "string \<Rightarrow> string \<Rightarrow> bool" where
  "endsWith s p = (drop (length s - length p) s = p)"

fun readConditional :: "string \<Rightarrow> string list \<Rightarrow> string \<Rightarrow> string option" where
  "readConditional operator [] n = None"
| "readConditional operator (l # ls) n =
     (let body = stripIndent l; test = operator @ '' N extends '' in
      if startsWith body test then
        (let rest = drop (length test) body;
             r = takeWhile (\<lambda>ch. ch \<noteq> CHR '' '') rest;
             after = drop (length r) rest
         in if \<not> startsWith after '' ? '' then None
            else if r = n then Some (drop 3 after)
            else readConditional '':'' ls n)
      else if operator = '':'' \<and> startsWith body '': '' \<and> endsWith body '';''
        then Some (butlast (drop 2 body))
      else None)"

definition readCurriedType :: "string list \<Rightarrow> string \<Rightarrow> string option" where
  "readCurriedType lines n =
     (case lines of [] \<Rightarrow> None | header # ls \<Rightarrow> readConditional ''='' ls n)"

text \<open>
  The inlined lookup, \<^verbatim>\<open>( R extends r1 ? v1 : R extends r2 ? v2 : D )\<close>, is read in the
  same way: the line after the last alternative is the default.
\<close>

fun readInlineConditional :: "string list \<Rightarrow> string \<Rightarrow> string option" where
  "readInlineConditional [] n = None"
| "readInlineConditional (l # ls) n =
     (let body = stripIndent l in
      if startsWith body ''R extends '' then
        (let rest = drop 10 body;
             r = takeWhile (\<lambda>ch. ch \<noteq> CHR '' '') rest;
             after = drop (length r) rest
         in if \<not> startsWith after '' ? '' \<or> \<not> endsWith after '' :'' then None
            else if r = n then Some (take (length after - 5) (drop 3 after))
            else readInlineConditional ls n)
      else Some body)"

definition readInlineType :: "string list \<Rightarrow> string \<Rightarrow> string option" where
  "readInlineType lines n =
     (case lines of
        [] \<Rightarrow> None
      | opening # ls \<Rightarrow> if stripIndent opening = ''('' then readInlineConditional ls n else None)"

subsection \<open>Closed forms of the loops\<close>

text \<open>
  The lines that the loops push, in closed form: the alternatives of a curried type for a
  list of right exponents, and the alternative of the uncurried type for one left exponent.
\<close>

fun branchLines ::
  "('n \<Rightarrow> string) \<Rightarrow> (string \<Rightarrow> string) \<Rightarrow> ('n \<Rightarrow> 'n) \<Rightarrow> bool \<Rightarrow> 'n list \<Rightarrow> string list" where
  "branchLines str ind f first [] = []"
| "branchLines str ind f first (r # rs) =
     ind ((if first then ''='' else '':'') @ '' N extends '' @ str r @ '' ? '' @ str (f r))
     # branchLines str ind f False rs"

definition uncurriedBranch ::
  "('n \<Rightarrow> string) \<Rightarrow> 'n common \<Rightarrow> 'n OperatorCodeGenOptions \<Rightarrow> bool \<Rightarrow> 'n \<Rightarrow> string" where
  "uncurriedBranch str c options first left =
     indent c ((if first then ''='' else '':'') @ '' L extends '' @ str left @ '' ?'') @ '' '' @
     (case specialCases options left of
        Some expression \<Rightarrow> expression
      | None \<Rightarrow> genCurriedTypeName c options left @ ''<R>'')"

subsection \<open>Sample instances\<close>

text \<open>
  An addition over the exponents -1, 0 and 1, with the special case \<open>0 + R = R\<close>, to run
  the generators on.
\<close>

definition sampleSpec :: "int IOperatorSpec" where
  "sampleSpec = \<lparr>spec_compute = (+), spec_specialCases = Map.empty\<rparr>"

definition sampleIsExponent :: "int \<Rightarrow> int IOperatorSpec \<Rightarrow> bool" where
  "sampleIsExponent result spec = (- 1 \<le> result \<and> result \<le> 1)"

definition sampleOptions :: "int OperatorCodeGenOptions" where
  "sampleOptions =
     \<lparr>specialCases = [0 \<mapsto> ''R''], compute = (+), curriedTypeNamePrefix = ''Add''\<rparr>"

definition sampleValueName :: "int \<Rightarrow> string" where
  "sampleValueName v =
     (if v < 0 then ''Negative'' @ numberToString (- v) else ''Positive'' @ numberToString v)"

definition sampleCommon :: "int common" where
  "sampleCommon =
     \<lparr>EXPONENTS = [- 1, 0, 1],
      genFileHeader = [''// generated''],
      genImport = (\<lambda>names file. ''import { '' @ join '', '' names @ '' } from '' @ file @ '';''),
      genUncurriedTypeName = (\<lambda>options l r. ''AddExponents<'' @ l @ '', '' @ r @ ''>''),
      genValueName = sampleValueName,
      indent = indent_inline\<rparr>"

section \<open>The generic measure\<close>

text \<open>
  The numeric operations that a measure is generic over, as the interface
  \<open>INumericOperations\<close> declares them (the fields carry the prefix \<open>num_\<close>).
\<close>

record 'n INumericOperations =
  num_one :: "'n"
  num_neg :: "'n \<Rightarrow> 'n"
  num_add :: "'n \<Rightarrow> 'n \<Rightarrow> 'n"
  num_sub :: "'n \<Rightarrow> 'n \<Rightarrow> 'n"
  num_mult :: "'n \<Rightarrow> 'n \<Rightarrow> 'n"
  num_div :: "'n \<Rightarrow> 'n \<Rightarrow> 'n"
  num_pow :: "'n \<Rightarrow> int \<Rightarrow> 'n"
  num_compare :: "'n \<Rightarrow> 'n \<Rightarrow> int"
  num_format :: "'n \<Rightarrow> string"

text \<open>
  The readonly fields of \<open>IGenericMeasure\<close>: \<open>value\<close>, \<open>unit\<close> and \<open>symbol\<close> (with the prefix
  \<open>m_\<close>), \<open>None\<close> for the symbol \<open>undefined\<close>.
\<close>

record 'n Measure =
  m_value :: "'n"
  m_unit :: UnitWithSymbols
  m_symbol :: "string option"

datatype error = ArithmeticError string | UnitMismatchError

text \<open>
  Modelled from the spec: the class that implements \<open>IGenericMeasure\<close> and the unit algebra
  of \<open>unitTypeArithmetic\<close> are missing; the interface alone is at hand. The definitions
  from here to \<open>cubed\<close> follow sections 3, 4.1, 4.2 and 4.5 of the specification.

  The canonical form of a unit: its (dimension, exponent) pairs with the zero exponents
  removed. Two units are compatible when their canonical forms are equal as sets.
\<close>

definition canonicalUnit :: "UnitWithSymbols \<Rightarrow> (string \<times> int) list" where
  "canonicalUnit u =
     List.map_filter
       (\<lambda>entry. case snd entry of
                  None \<Rightarrow> None
                | Some d \<Rightarrow> if snd d = 0 then None else Some (fst entry, snd d)) u"

definition isCompatible :: "UnitWithSymbols \<Rightarrow> UnitWithSymbols \<Rightarrow> bool" where
  "isCompatible u v = (set (canonicalUnit u) = set (canonicalUnit v))"

text \<open>
  Modelled from the spec: \<open>toString\<close> is the formatted value, then a space and the formatted
  unit; the unit segment is left out when the formatted unit is empty.
\<close>

definition toString :: "'n INumericOperations \<Rightarrow> 'n Measure \<Rightarrow> string" where
  "toString num m =
     (let unitText = formatUnit (m_unit m)
      in if unitText = [] then num_format num (m_value m)
         else num_format num (m_value m) @ '' '' @ unitText)"

text \<open>
  Modelled from the spec: \<open>in(unit)\<close> confirms that the units are equal (a
  \<open>UnitMismatchError\<close> otherwise), falls back to \<open>toString()\<close> when the given unit has no
  symbol, and otherwise formats the quotient of the two values followed by the symbol of
  the given unit. The specification names no separator; the model puts the single space
  of \<open>toString\<close> between the two.
\<close>

definition measure_in :: "'n INumericOperations \<Rightarrow> 'n Measure \<Rightarrow> 'n Measure \<Rightarrow> error + string" where
  "measure_in num m u =
     (if \<not> isCompatible (m_unit m) (m_unit u) then Inl UnitMismatchError
      else case m_symbol u of
             None \<Rightarrow> Inr (toString num m)
           | Some s \<Rightarrow> Inr (num_format num (num_div num (m_value m) (m_value u)) @ '' '' @ s))"

text \<open>
  Modelled from the spec: the exponent domain is the interval from \<open>lo\<close> to \<open>hi\<close>;
  \<open>scaleExponent\<close> multiplies an exponent by an integer and fails outside the domain;
  \<open>exponentiateUnit\<close> scales every dimension, fails as a whole when one dimension fails
  and leaves out the dimensions that come out as 0.
\<close>

definition inDomain :: "int \<Rightarrow> int \<Rightarrow> int \<Rightarrow> bool" where
  "inDomain lo hi e = (lo \<le> e \<and> e \<le> hi)"

definition scaleExponent :: "int \<Rightarrow> int \<Rightarrow> string \<Rightarrow> int \<Rightarrow> int \<Rightarrow> error + int" where
  "scaleExponent lo hi dimension a k =
     (if inDomain lo hi (a * k) then Inr (a * k) else Inl (ArithmeticError dimension))"

fun exponentiateUnit :: "int \<Rightarrow> int \<Rightarrow> UnitWithSymbols \<Rightarrow> int \<Rightarrow> error + UnitWithSymbols" where
  "exponentiateUnit lo hi [] k = Inr []"
| "exponentiateUnit lo hi ((dimension, None) # rest) k = exponentiateUnit lo hi rest k"
| "exponentiateUnit lo hi ((dimension, Some d) # rest) k =
     (case scaleExponent lo hi dimension (snd d) k of
        Inl err \<Rightarrow> Inl err
      | Inr e \<Rightarrow>
          (case exponentiateUnit lo hi rest k of
             Inl err \<Rightarrow> Inl err
           | Inr rest' \<Rightarrow> Inr (if e = 0 then rest' else (dimension, Some (fst d, e)) # rest')))"

text \<open>
  Modelled from the spec: an exponent is allowed for a unit when it keeps the result of
  every dimension inside the domain (the type \<open>AllowedExponents<U>\<close> of the interface).
\<close>

definition isAllowedExponent :: "int \<Rightarrow> int \<Rightarrow> UnitWithSymbols \<Rightarrow> int \<Rightarrow> bool" where
  "isAllowedExponent lo hi u k =
     list_all (\<lambda>entry. case snd entry of None \<Rightarrow> True | Some d \<Rightarrow> inDomain lo hi (snd d * k)) u"

text \<open>
  Modelled from the spec: \<open>toThe\<close> takes the unit from \<open>exponentiateUnit\<close>, passing its
  failure on, and the value from \<open>pow\<close>; the result carries no symbol.
\<close>

definition toThe ::
  "'n INumericOperations \<Rightarrow> int \<Rightarrow> int \<Rightarrow> 'n Measure \<Rightarrow> int \<Rightarrow> error + 'n Measure" where
  "toThe num lo hi m exponent =
     (case exponentiateUnit lo hi (m_unit m) exponent of
        Inl err \<Rightarrow> Inl err
      | Inr u \<Rightarrow> Inr \<lparr>m_value = num_pow num (m_value m) exponent, m_unit = u, m_symbol = None\<rparr>)"

text \<open>
  Modelled from the spec: the implementations of \<open>squared\<close> and \<open>cubed\<close> are missing; when
  offered, they are \<open>toThe(2)\<close> and \<open>toThe(3)\<close>. The interface gives them the conditional
  types
  \<^verbatim>\<open>2 extends AllowedExponents<U> ? () => IGenericMeasure<N, ExponentiateUnit<U, 2>> : never\<close>
  and the same with 3: \<open>None\<close> stands for \<open>never\<close>, the member that is not offered.
\<close>

definition squared ::
  "'n INumericOperations \<Rightarrow> int \<Rightarrow> int \<Rightarrow> 'n Measure \<Rightarrow> (error + 'n Measure) option" where
  "squared num lo hi m =
     (if isAllowedExponent lo hi (m_unit m) 2 then Some (toThe num lo hi m 2) else None)"

definition cubed ::
  "'n INumericOperations \<Rightarrow> int \<Rightarrow> int \<Rightarrow> 'n Measure \<Rightarrow> (error + 'n Measure) option" where
  "cubed num lo hi m =
     (if isAllowedExponent lo hi (m_unit m) 3 then Some (toThe num lo hi m 3) else None)"

text \<open>A sample instance of the numeric operations, over the integers.\<close>

definition sampleNumeric :: "int INumericOperations" where
  "sampleNumeric =
     \<lparr>num_one = 1, num_neg = uminus, num_add = (+), num_sub = (-), num_mult = (*),
      num_div = (div), num_pow = (\<lambda>b e. b ^ nat e),
      num_compare = (\<lambda>l r. if l < r then - 1 else if l = r then 0 else 1),
      num_format = numberToString\<rparr>"

section \<open>Golden outputs of the formatter\<close>

lemma digits_small: "n < 10 \<Longrightarrow> digits n = [digitChar n]"
  by (simp add: digits.simps)

text \<open>
  C2. \<open>formatUnit\<close> returns \<open>m\<close> for the unit with \<open>m\<close> to the first power, \<open>m / s^2\<close> for
  \<open>m\<close> to the first and \<open>s\<close> to the power -2, \<open>kg * m / s^2\<close> for \<open>kg\<close> and \<open>m\<close> to the first
  and \<open>s\<close> to the power -2, and the empty string for the unit without dimensions.
\<close>

theorem formatUnit_golden:
  "formatUnit [(''m'', Some (''m'', 1))] = ''m''
   \<and> formatUnit [(''m'', Some (''m'', 1)), (''s'', Some (''s'', - 2))] = ''m / s^2''
   \<and> formatUnit [(''kg'', Some (''kg'', 1)), (''m'', Some (''m'', 1)), (''s'', Some (''s'', - 2))]
       = ''kg * m / s^2''
   \<and> formatUnit [] = ''''"
  by (simp add: formatUnit_def dimensionsOf_def presentOf_def positiveOf_def negativeOf_def objectKeys_def
      getDimension_def isDimensionPresent_def sortBy_def orderDimensions_def
      formatDimensions_def formatDimension_def negateDimension_def maybeParenthesize_def
      numberToString_def digits_small digitChar_def Let_def)

section \<open>Sorting with the comparator of the formatter\<close>

lemma mset_insertBy: "mset (insertBy c x ys) = add_mset x (mset ys)"
  by (induction ys) auto

lemma mset_foldl_insertBy:
  "mset (foldl (\<lambda>sorted x. insertBy c x sorted) acc xs) = mset acc + mset xs"
  by (induction xs arbitrary: acc) (auto simp: mset_insertBy)

lemma mset_sortBy: "mset (sortBy c xs) = mset xs"
  by (simp add: sortBy_def mset_foldl_insertBy)

lemma set_sortBy: "set (sortBy c xs) = set xs"
  using mset_sortBy [of c xs] by (metis set_mset_mset)

lemma length_sortBy: "length (sortBy c xs) = length xs"
  using mset_sortBy [of c xs] by (metis size_mset)

lemma set_insertBy: "set (insertBy c x ys) = insert x (set ys)"
  using mset_insertBy [of c x ys] by (metis set_mset_mset set_mset_add_mset_insert)

lemma sorted_insertBy:
  "sorted (map fst ys) \<Longrightarrow> sorted (map fst (insertBy orderDimensions x ys))"
  by (induction ys) (auto simp: orderDimensions_def set_insertBy)

lemma sorted_foldl_insertBy:
  "sorted (map fst acc) \<Longrightarrow>
   sorted (map fst (foldl (\<lambda>sorted x. insertBy orderDimensions x sorted) acc xs))"
  by (induction xs arbitrary: acc) (auto simp: sorted_insertBy)

lemma sorted_sortBy: "sorted (map fst (sortBy orderDimensions xs))"
  by (simp add: sortBy_def sorted_foldl_insertBy)

lemma sortBy_sort_key:
  assumes "distinct (map fst xs)"
  shows "sortBy orderDimensions xs = sort_key fst xs"
proof -
  have "inj_on fst (set xs)" using assms by (simp add: distinct_map)
  then have "sort_key fst xs = sortBy orderDimensions xs"
    by (intro sort_key_inj_key_eq) (simp_all add: mset_sortBy sorted_sortBy)
  then show ?thesis by simp
qed

lemma getDimension_entries:
  assumes "distinct (map fst unit)"
  shows "map (getDimension unit) (objectKeys unit) = map snd unit"
proof -
  have "getDimension unit (fst e) = snd e" if "e \<in> set unit" for e
  proof -
    from that have "(fst e, snd e) \<in> set unit" by simp
    with assms have "map_of unit (fst e) = Some (snd e)" by (simp only: map_of_eq_Some_iff)
    then show ?thesis by (simp add: getDimension_def)
  qed
  then show ?thesis by (simp add: objectKeys_def)
qed

lemma presentOf_entries:
  "distinct (map fst unit) \<Longrightarrow> presentOf unit = map the (filter isDimensionPresent (map snd unit))"
  by (simp add: presentOf_def getDimension_entries)

lemma set_dimensionsOf: "set (dimensionsOf unit) = set (presentOf unit)"
  by (simp add: dimensionsOf_def set_sortBy)

lemma presentOf_nonzero: "d \<in> set (presentOf unit) \<Longrightarrow> snd d \<noteq> 0"
  by (auto simp: presentOf_def isDimensionPresent_def split: option.splits)

lemma sorted_dimensionsOf: "sorted (map fst (dimensionsOf unit))"
  by (simp add: dimensionsOf_def sorted_sortBy)

lemma sorted_map_filter: "sorted (map f xs) \<Longrightarrow> sorted (map f (filter P xs))"
  by (induction xs) auto

lemma formatUnit_cases:
  "formatUnit unit =
     (if positiveOf unit = [] then formatDimensions (negativeOf unit)
      else if negativeOf unit = [] then formatDimensions (positiveOf unit)
      else formatDimensions (positiveOf unit) @ '' / '' @
           maybeParenthesize (formatDimensions (map negateDimension (negativeOf unit)))
             (length (negativeOf unit) \<noteq> 1))"
  by (auto simp: formatUnit_def Let_def positiveOf_def negativeOf_def formatDimensions_def)

text \<open>
  C3. For a unit with at least one positive and at least one negative exponent among its
  present dimensions, \<open>formatUnit\<close> returns the numerator, \<open>" / "\<close> and the denominator; the
  denominator renders the negative group with every exponent negated, which makes it
  positive, and stands in parentheses exactly when that group has more than one dimension.
\<close>

theorem formatUnit_fraction:
  assumes "\<exists>d \<in> set (presentOf unit). 0 < snd d" and "\<exists>d \<in> set (presentOf unit). snd d < 0"
  shows "formatUnit unit =
           formatDimensions (positiveOf unit) @ '' / '' @
           (let denominator =
                  join '' * ''
                    (map (\<lambda>d. fst d @ (if - snd d \<noteq> 1 then ''^'' @ numberToString (- snd d) else []))
                       (negativeOf unit))
            in if 1 < length (negativeOf unit) then ''('' @ denominator @ '')'' else denominator)
         \<and> (\<forall>d \<in> set (negativeOf unit). 0 < - snd d)"
proof -
  from assms(1) have p: "positiveOf unit \<noteq> []"
    by (auto simp: positiveOf_def filter_empty_conv set_dimensionsOf)
  from assms(2) have n: "negativeOf unit \<noteq> []"
    by (auto simp: negativeOf_def filter_empty_conv set_dimensionsOf)
  from n have l: "length (negativeOf unit) \<noteq> 1 \<longleftrightarrow> 1 < length (negativeOf unit)"
    by (cases "negativeOf unit") auto
  have "formatDimensions (map negateDimension (negativeOf unit)) =
        join '' * ''
          (map (\<lambda>d. fst d @ (if - snd d \<noteq> 1 then ''^'' @ numberToString (- snd d) else []))
             (negativeOf unit))"
    by (simp add: formatDimensions_def formatDimension_def negateDimension_def comp_def
        cong: if_cong)
  moreover have "\<forall>d \<in> set (negativeOf unit). 0 < - snd d"
    by (simp add: negativeOf_def)
  ultimately show ?thesis
    using p n l by (simp add: formatUnit_cases maybeParenthesize_def Let_def)
qed

text \<open>
  C4. For a unit whose present dimensions all have negative exponents, \<open>formatUnit\<close> returns
  the sorted dimensions joined by \<open>" * "\<close>, each symbol followed by \<open>^\<close> and its own negative
  exponent: no numerator, no \<open>1/\<close>, no negation.
\<close>

theorem formatUnit_all_negative:
  assumes "\<forall>d \<in> set (presentOf unit). snd d < 0"
  shows "formatUnit unit =
           join '' * '' (map (\<lambda>d. fst d @ ''^'' @ numberToString (snd d)) (dimensionsOf unit))
         \<and> (\<forall>d \<in> set (dimensionsOf unit). snd d < 0)"
proof -
  from assms have neg: "\<forall>d \<in> set (dimensionsOf unit). snd d < 0"
    by (simp add: set_dimensionsOf)
  then have p: "positiveOf unit = []"
    by (auto simp: positiveOf_def filter_empty_conv)
  from neg have n: "negativeOf unit = dimensionsOf unit"
    by (simp add: negativeOf_def)
  have "map formatDimension (dimensionsOf unit) =
        map (\<lambda>d. fst d @ ''^'' @ numberToString (snd d)) (dimensionsOf unit)"
    using neg by (auto simp: formatDimension_def)
  then have "formatDimensions (dimensionsOf unit) =
        join '' * '' (map (\<lambda>d. fst d @ ''^'' @ numberToString (snd d)) (dimensionsOf unit))"
    by (simp only: formatDimensions_def)
  with p n neg show ?thesis
    by (simp only: formatUnit_cases if_True simp_thms)
qed

text \<open>
  C5. For every unit, the positive and the negative group together hold exactly the present
  (non-zero) dimensions, the first those with a positive and the second those with a
  negative exponent; the symbols of each rendered group ascend in the lexicographic order;
  a group is rendered as its dimensions joined by \<open>" * "\<close>, a symbol alone when the rendered
  exponent is 1 and followed by \<open>^\<close> and the exponent otherwise; and the output is built
  from these rendered groups.
\<close>

theorem formatUnit_groups:
  "mset (positiveOf unit) + mset (negativeOf unit) = mset (presentOf unit)
   \<and> (\<forall>d \<in> set (positiveOf unit). 0 < snd d) \<and> (\<forall>d \<in> set (negativeOf unit). snd d < 0)
   \<and> sorted (map fst (positiveOf unit)) \<and> sorted (map fst (negativeOf unit))
   \<and> sorted (map fst (map negateDimension (negativeOf unit)))
   \<and> (\<forall>ds. formatDimensions ds =
         join '' * ''
           (map (\<lambda>d. if snd d = 1 then fst d else fst d @ ''^'' @ numberToString (snd d)) ds))
   \<and> formatUnit unit =
       (if positiveOf unit = [] then formatDimensions (negativeOf unit)
        else if negativeOf unit = [] then formatDimensions (positiveOf unit)
        else formatDimensions (positiveOf unit) @ '' / '' @
             maybeParenthesize (formatDimensions (map negateDimension (negativeOf unit)))
               (length (negativeOf unit) \<noteq> 1))"
proof -
  have "mset (positiveOf unit) + mset (negativeOf unit) = mset (dimensionsOf unit)"
    unfolding positiveOf_def negativeOf_def
  proof (rule multiset_eqI)
    fix d
    have "d \<in> set (dimensionsOf unit) \<Longrightarrow> snd d \<noteq> 0"
      by (simp add: set_dimensionsOf presentOf_nonzero)
    then show "count (mset (filter (\<lambda>d. 0 < snd d) (dimensionsOf unit)) +
                 mset (filter (\<lambda>d. snd d < 0) (dimensionsOf unit))) d =
               count (mset (dimensionsOf unit)) d"
      by (cases "d \<in> set (dimensionsOf unit)") (auto simp: count_eq_zero_iff)
  qed
  then have split: "mset (positiveOf unit) + mset (negativeOf unit) = mset (presentOf unit)"
    by (simp add: dimensionsOf_def mset_sortBy)
  have signs: "(\<forall>d \<in> set (positiveOf unit). 0 < snd d) \<and> (\<forall>d \<in> set (negativeOf unit). snd d < 0)"
    by (simp add: positiveOf_def negativeOf_def)
  have sp: "sorted (map fst (positiveOf unit))"
    unfolding positiveOf_def by (rule sorted_map_filter) (rule sorted_dimensionsOf)
  have sn: "sorted (map fst (negativeOf unit))"
    unfolding negativeOf_def by (rule sorted_map_filter) (rule sorted_dimensionsOf)
  have "fst \<circ> negateDimension = fst"
    by (rule ext) (simp add: negateDimension_def)
  with sn have snn: "sorted (map fst (map negateDimension (negativeOf unit)))"
    by simp
  have fd: "\<forall>ds. formatDimensions ds =
         join '' * ''
           (map (\<lambda>d. if snd d = 1 then fst d else fst d @ ''^'' @ numberToString (snd d)) ds)"
  proof
    fix ds
    have "formatDimension = (\<lambda>d. if snd d = 1 then fst d else fst d @ ''^'' @ numberToString (snd d))"
      by (rule ext) (simp add: formatDimension_def)
    then show "formatDimensions ds =
         join '' * ''
           (map (\<lambda>d. if snd d = 1 then fst d else fst d @ ''^'' @ numberToString (snd d)) ds)"
      by (simp add: formatDimensions_def)
  qed
  from split signs sp sn snn fd formatUnit_cases [of unit] show ?thesis
    by blast
qed

lemma formatUnit_presentOf:
  "presentOf unit' = presentOf unit \<Longrightarrow> formatUnit unit' = formatUnit unit"
  by (simp add: formatUnit_def dimensionsOf_def positiveOf_def negativeOf_def)

lemma formatUnit_dimensionsOf:
  "dimensionsOf unit' = dimensionsOf unit \<Longrightarrow> formatUnit unit' = formatUnit unit"
  by (simp add: formatUnit_def positiveOf_def negativeOf_def)

text \<open>
  C9. An entry that holds \<open>undefined\<close> or a pair with exponent 0 can be added to a unit, at
  any place of its enumeration order, or removed from it, and the output of \<open>formatUnit\<close>
  stays the same as for the unit without that key.
\<close>

theorem formatUnit_ignores_absent:
  assumes "distinct (map fst (xs @ (k, v) # ys))"
    and "v = None \<or> (\<exists>symbol. v = Some (symbol, 0))"
  shows "formatUnit (xs @ (k, v) # ys) = formatUnit (xs @ ys)"
proof -
  from assms(2) have absent: "\<not> isDimensionPresent v"
    by (auto simp: isDimensionPresent_def)
  from assms(1) have "distinct (map fst (xs @ ys))"
    by auto
  then have "presentOf (xs @ ys) = map the (filter isDimensionPresent (map snd (xs @ ys)))"
    by (rule presentOf_entries)
  moreover from assms(1)
  have "presentOf (xs @ (k, v) # ys) =
        map the (filter isDimensionPresent (map snd (xs @ (k, v) # ys)))"
    by (rule presentOf_entries)
  ultimately have "presentOf (xs @ (k, v) # ys) = presentOf (xs @ ys)"
    using absent by simp
  then show ?thesis
    by (rule formatUnit_presentOf)
qed

lemma dimensionsOf_permutation:
  assumes "mset (presentOf unit') = mset (presentOf unit)"
    and "distinct (map fst (presentOf unit))"
  shows "dimensionsOf unit' = dimensionsOf unit"
proof -
  from assms(1) have "mset (map fst (presentOf unit')) = mset (map fst (presentOf unit))"
    by (metis mset_map)
  with assms(2) have d': "distinct (map fst (presentOf unit'))"
    by (metis mset_eq_imp_distinct_iff)
  then have inj: "inj_on fst (set (presentOf unit'))"
    by (simp add: distinct_map)
  have "sort_key fst (presentOf unit') = sortBy orderDimensions (presentOf unit)"
    using assms(1) inj by (intro sort_key_inj_key_eq) (simp_all add: mset_sortBy sorted_sortBy)
  with d' show ?thesis
    by (simp add: dimensionsOf_def sortBy_sort_key)
qed

text \<open>
  C10. When the present dimensions of a unit have pairwise distinct symbols, \<open>formatUnit\<close>
  gives the same output for every enumeration order of the unit's entries.
\<close>

theorem formatUnit_order_invariant:
  assumes "distinct (map fst unit)"
    and "mset unit' = mset unit"
    and "distinct (map fst (presentOf unit))"
  shows "formatUnit unit' = formatUnit unit"
proof -
  from assms(2) have "mset (map fst unit') = mset (map fst unit)"
    by (metis mset_map)
  with assms(1) have "distinct (map fst unit')"
    by (metis mset_eq_imp_distinct_iff)
  then have "presentOf unit' = map the (filter isDimensionPresent (map snd unit'))"
    by (rule presentOf_entries)
  moreover from assms(1)
  have "presentOf unit = map the (filter isDimensionPresent (map snd unit))"
    by (rule presentOf_entries)
  moreover from assms(2)
  have "mset (map the (filter isDimensionPresent (map snd unit'))) =
        mset (map the (filter isDimensionPresent (map snd unit)))"
    by (simp only: mset_map mset_filter)
  ultimately have "mset (presentOf unit') = mset (presentOf unit)"
    by simp
  then have "dimensionsOf unit' = dimensionsOf unit"
    using assms(3) by (rule dimensionsOf_permutation)
  then show ?thesis
    by (rule formatUnit_dimensionsOf)
qed

lemmas formatUnit_eval =
  formatUnit_def dimensionsOf_def presentOf_def positiveOf_def negativeOf_def objectKeys_def
  getDimension_def isDimensionPresent_def sortBy_def orderDimensions_def
  formatDimensions_def formatDimension_def negateDimension_def maybeParenthesize_def
  numberToString_def digits_small digitChar_def Let_def

theorem formatUnit_fraction_witness:
  "(\<exists>d \<in> set (presentOf [(''s'', Some (''s'', - 2)), (''m'', Some (''m'', 1)),
        (''kg'', Some (''kg'', 1)), (''A'', Some (''A'', - 1))]). 0 < snd d)
   \<and> (\<exists>d \<in> set (presentOf [(''s'', Some (''s'', - 2)), (''m'', Some (''m'', 1)),
        (''kg'', Some (''kg'', 1)), (''A'', Some (''A'', - 1))]). snd d < 0)
   \<and> formatUnit [(''s'', Some (''s'', - 2)), (''m'', Some (''m'', 1)),
        (''kg'', Some (''kg'', 1)), (''A'', Some (''A'', - 1))] = ''kg * m / (A * s^2)''"
proof -
  let ?u = "[(''s'', Some (''s'', - 2)), (''m'', Some (''m'', 1)),
        (''kg'', Some (''kg'', 1)), (''A'', Some (''A'', - 1))] :: UnitWithSymbols"
  have p: "\<exists>d \<in> set (presentOf ?u). 0 < snd d"
    by (simp add: formatUnit_eval)
  have n: "\<exists>d \<in> set (presentOf ?u). snd d < 0"
    by (simp add: formatUnit_eval)
  have neg: "negativeOf ?u = [(''A'', - 1), (''s'', - 2)]"
    by (simp add: formatUnit_eval)
  have pos: "positiveOf ?u = [(''kg'', 1), (''m'', 1)]"
    by (simp add: formatUnit_eval)
  from formatUnit_fraction [OF p n] have "formatUnit ?u = ''kg * m / (A * s^2)''"
    unfolding neg pos by (simp add: formatUnit_eval)
  with p n show ?thesis by simp
qed

theorem formatUnit_all_negative_witness:
  "presentOf [(''s'', Some (''s'', - 2))] = [(''s'', - 2)]
   \<and> formatUnit [(''s'', Some (''s'', - 2))] = ''s^-2''"
proof -
  have e: "presentOf [(''s'', Some (''s'', - 2))] = [(''s'', - 2)]"
    by (simp add: formatUnit_eval)
  have h: "\<forall>d \<in> set (presentOf [(''s'', Some (''s'', - 2))]). snd d < 0"
    by (simp add: formatUnit_eval)
  have d: "dimensionsOf [(''s'', Some (''s'', - 2))] = [(''s'', - 2)]"
    by (simp add: formatUnit_eval)
  from formatUnit_all_negative [OF h] have "formatUnit [(''s'', Some (''s'', - 2))] = ''s^-2''"
    unfolding d by (simp add: formatUnit_eval)
  with e show ?thesis by simp
qed

theorem formatUnit_groups_witness:
  "positiveOf [(''m'', Some (''m'', 1)), (''s'', Some (''s'', - 2)), (''kg'', Some (''kg'', 3))]
     = [(''kg'', 3), (''m'', 1)]
   \<and> negativeOf [(''m'', Some (''m'', 1)), (''s'', Some (''s'', - 2)), (''kg'', Some (''kg'', 3))]
     = [(''s'', - 2)]
   \<and> formatUnit [(''m'', Some (''m'', 1)), (''s'', Some (''s'', - 2)), (''kg'', Some (''kg'', 3))]
     = ''kg^3 * m / s^2''"
proof -
  let ?u = "[(''m'', Some (''m'', 1)), (''s'', Some (''s'', - 2)), (''kg'', Some (''kg'', 3))]
    :: UnitWithSymbols"
  have neg: "negativeOf ?u = [(''s'', - 2)]"
    by (simp add: formatUnit_eval)
  have pos: "positiveOf ?u = [(''kg'', 3), (''m'', 1)]"
    by (simp add: formatUnit_eval)
  from formatUnit_groups [of ?u]
  have "(\<forall>d \<in> set (positiveOf ?u). 0 < snd d) \<and> (\<forall>d \<in> set (negativeOf ?u). snd d < 0)
    \<and> formatUnit ?u =
       (if positiveOf ?u = [] then formatDimensions (negativeOf ?u)
        else if negativeOf ?u = [] then formatDimensions (positiveOf ?u)
        else formatDimensions (positiveOf ?u) @ '' / '' @
             maybeParenthesize (formatDimensions (map negateDimension (negativeOf ?u)))
               (length (negativeOf ?u) \<noteq> 1))"
    by blast
  then show ?thesis
    unfolding neg pos
    by (simp add: formatDimensions_def formatDimension_def negateDimension_def
        maybeParenthesize_def numberToString_def digits_small digitChar_def)
qed

theorem formatUnit_ignores_absent_witness:
  "formatUnit [(''m'', Some (''m'', 1)), (''K'', None), (''s'', Some (''s'', - 2))] = ''m / s^2''
   \<and> formatUnit [(''m'', Some (''m'', 1)), (''K'', Some (''K'', 0)), (''s'', Some (''s'', - 2))]
      = ''m / s^2''"
proof -
  have g: "formatUnit ([(''m'', Some (''m'', 1))] @ [(''s'', Some (''s'', - 2))]) = ''m / s^2''"
    by (simp add: formatUnit_eval)
  have "formatUnit ([(''m'', Some (''m'', 1))] @ (''K'', None) # [(''s'', Some (''s'', - 2))])
        = formatUnit ([(''m'', Some (''m'', 1))] @ [(''s'', Some (''s'', - 2))])"
    by (rule formatUnit_ignores_absent) simp_all
  moreover
  have "formatUnit ([(''m'', Some (''m'', 1))] @ (''K'', Some (''K'', 0)) # [(''s'', Some (''s'', - 2))])
        = formatUnit ([(''m'', Some (''m'', 1))] @ [(''s'', Some (''s'', - 2))])"
    by (rule formatUnit_ignores_absent) simp_all
  ultimately show ?thesis
    using g by simp
qed

theorem formatUnit_order_invariant_witness:
  "formatUnit [(''s'', Some (''s'', - 2)), (''m'', Some (''m'', 1)), (''kg'', Some (''kg'', 1))]
   = ''kg * m / s^2''"
proof -
  let ?u = "[(''kg'', Some (''kg'', 1)), (''m'', Some (''m'', 1)), (''s'', Some (''s'', - 2))]
    :: UnitWithSymbols"
  let ?u' = "[(''s'', Some (''s'', - 2)), (''m'', Some (''m'', 1)), (''kg'', Some (''kg'', 1))]
    :: UnitWithSymbols"
  have k: "distinct (map fst ?u)" by simp
  have m: "mset ?u' = mset ?u" by simp
  have s: "distinct (map fst (presentOf ?u))"
    by (simp add: presentOf_def objectKeys_def getDimension_def isDimensionPresent_def)
  have "formatUnit ?u = ''kg * m / s^2''"
    by (simp add: formatUnit_eval)
  with formatUnit_order_invariant [OF k m s] show ?thesis
    by simp
qed

section \<open>The generated lookups\<close>

lemma indexOf_ge: "- 1 \<le> indexOf xs x"
  by (induction xs) (auto simp: Let_def)

lemma indexOf_mem: "indexOf xs x \<noteq> - 1 \<longleftrightarrow> x \<in> set xs"
proof (induction xs)
  case Nil
  show ?case by simp
next
  case (Cons y ys)
  have "- 1 \<le> indexOf ys x" by (rule indexOf_ge)
  then have "indexOf ys x + 1 \<noteq> - 1" by arith
  with Cons show ?case by (auto simp: Let_def)
qed

lemma genCurriedType_loop_closed:
  "genCurriedType_loop str c options left rights first lines =
     lines @ branchLines str (indent c) (compute options left) first
       (filter (\<lambda>r. compute options left r \<in> set (EXPONENTS c)) rights)"
  by (induction rights arbitrary: first lines) (simp_all add: Let_def indexOf_mem)


lemma stripIndent_replicate:
  "s \<noteq> [] \<Longrightarrow> hd s \<noteq> CHR '' '' \<Longrightarrow> stripIndent (replicate k (CHR '' '') @ s) = s"
  by (cases s) (simp_all add: stripIndent_def dropWhile_append3)

lemma takeWhile_nospace:
  "CHR '' '' \<notin> set a \<Longrightarrow> takeWhile (\<lambda>ch. ch \<noteq> CHR '' '') (a @ CHR '' '' # b) = a"
  by (induction a) auto

lemma readConditional_default:
  "readConditional '':'' ((replicate k (CHR '' '') @ '': ArithmeticError;'') # ls) n =
     Some ''ArithmeticError''"
proof -
  have "stripIndent (replicate k (CHR '' '') @ '': ArithmeticError;'') = '': ArithmeticError;''"
    by (intro stripIndent_replicate) auto
  then show ?thesis
    by (simp add: startsWith_def endsWith_def Let_def)
qed


lemma readConditional_step:
  assumes "operator = ''='' \<or> operator = '':''" and "CHR '' '' \<notin> set sr"
  shows "readConditional operator
           ((replicate k (CHR '' '') @ operator @ '' N extends '' @ sr @ '' ? '' @ sv) # ls) n =
         (if sr = n then Some sv else readConditional '':'' ls n)"
proof -
  let ?body = "operator @ '' N extends '' @ sr @ '' ? '' @ sv"
  from assms(1) have b: "stripIndent (replicate k (CHR '' '') @ ?body) = ?body"
    by (intro stripIndent_replicate) auto
  have t: "takeWhile (\<lambda>ch. ch \<noteq> CHR '' '') (sr @ '' ? '' @ sv) = sr"
    using takeWhile_nospace [OF assms(2), of "''? '' @ sv"] by simp
  have l: "length operator = 1"
    using assms(1) by auto
  have s: "startsWith ?body (operator @ '' N extends '')"
    by (simp add: startsWith_def)
  have r: "drop (length (operator @ '' N extends '')) ?body = sr @ '' ? '' @ sv"
    by simp
  have a: "drop (length sr) (sr @ '' ? '' @ sv) = '' ? '' @ sv"
    by simp
  have sa: "startsWith ('' ? '' @ sv) '' ? ''"
    by (simp add: startsWith_def)
  have d: "drop 3 ('' ? '' @ sv) = sv"
    by simp
  show ?thesis
    unfolding readConditional.simps b Let_def
    by (simp only: s r t a sa d if_True not_True_eq_False if_False)
qed

lemma readConditional_branches:
  assumes "\<forall>s. \<exists>k. ind s = replicate k (CHR '' '') @ s"
    and "inj_on str (insert right (set rs))"
    and "\<forall>x \<in> set rs. CHR '' '' \<notin> set (str x)"
  shows "readConditional (if first then ''='' else '':'')
           (branchLines str ind f first rs @ rest) (str right) =
         (if right \<in> set rs then Some (str (f right))
          else readConditional (if rs = [] \<and> first then ''='' else '':'') rest (str right))"
  using assms(2,3)
proof (induction rs arbitrary: first)
  case Nil
  show ?case by simp
next
  case (Cons r rs)
  let ?op = "if first then ''='' else '':''"
  from assms(1) obtain k where
    k: "ind (?op @ '' N extends '' @ str r @ '' ? '' @ str (f r)) =
        replicate k (CHR '' '') @ ?op @ '' N extends '' @ str r @ '' ? '' @ str (f r)"
    by blast
  from Cons.prems have ns: "CHR '' '' \<notin> set (str r)" by simp
  have op: "?op = ''='' \<or> ?op = '':''" by simp
  from Cons.prems have eq: "str r = str right \<longleftrightarrow> r = right"
    by (auto simp: inj_on_def)
  from Cons.prems have inj: "inj_on str (insert right (set rs))"
    by (auto simp: inj_on_def)
  from Cons.prems have nss: "\<forall>x \<in> set rs. CHR '' '' \<notin> set (str x)" by simp
  have ih: "readConditional '':'' (branchLines str ind f False rs @ rest) (str right) =
         (if right \<in> set rs then Some (str (f right))
          else readConditional '':'' rest (str right))"
    using Cons.IH [OF inj nss, of False] by simp
  have "branchLines str ind f first (r # rs) @ rest =
        (replicate k (CHR '' '') @ ?op @ '' N extends '' @ str r @ '' ? '' @ str (f r))
        # (branchLines str ind f False rs @ rest)"
    unfolding branchLines.simps k by (rule append_Cons)
  then have "readConditional ?op (branchLines str ind f first (r # rs) @ rest) (str right) =
        (if str r = str right then Some (str (f r))
         else readConditional '':'' (branchLines str ind f False rs @ rest) (str right))"
    by (simp only: readConditional_step [OF op ns])
  with eq ih show ?case by auto
qed


lemma genCurriedType_closed:
  "genCurriedType str c options left =
     (''export type '' @ genCurriedTypeName c options left @ ''<N extends Exponent>'')
     # (branchLines str (indent c) (compute options left) True
          (filter (\<lambda>r. compute options left r \<in> set (EXPONENTS c)) (EXPONENTS c))
        @ [indent c '': ArithmeticError;'', []])"
  by (simp add: genCurriedType_def genCurriedType_loop_closed genErrorCase_def)

lemma readCurriedType_genCurriedType:
  assumes ind: "\<forall>s. \<exists>k. indent c s = replicate k (CHR '' '') @ s"
    and inj: "inj_on str (set (EXPONENTS c))"
    and nospace: "\<forall>x \<in> set (EXPONENTS c). CHR '' '' \<notin> set (str x)"
    and right: "right \<in> set (EXPONENTS c)"
    and some: "\<exists>r \<in> set (EXPONENTS c). compute options left r \<in> set (EXPONENTS c)"
  shows "readCurriedType (genCurriedType str c options left) (str right) =
           Some (if compute options left right \<in> set (EXPONENTS c)
                 then str (compute options left right) else ''ArithmeticError'')"
proof -
  let ?rs = "filter (\<lambda>r. compute options left r \<in> set (EXPONENTS c)) (EXPONENTS c)"
  let ?rest = "[indent c '': ArithmeticError;'', []]"
  from some have ne: "?rs \<noteq> []"
    by (simp add: filter_empty_conv)
  from inj right have inj': "inj_on str (insert right (set ?rs))"
    by (auto simp: inj_on_def)
  from nospace have ns': "\<forall>x \<in> set ?rs. CHR '' '' \<notin> set (str x)"
    by simp
  from ind obtain k where k: "indent c '': ArithmeticError;'' = replicate k (CHR '' '') @ '': ArithmeticError;''"
    by blast
  have d: "readConditional '':'' ?rest (str right) = Some ''ArithmeticError''"
    unfolding k by (rule readConditional_default)
  have "readCurriedType (genCurriedType str c options left) (str right) =
        readConditional (if True then ''='' else '':'')
          (branchLines str (indent c) (compute options left) True ?rs @ ?rest) (str right)"
    by (simp only: genCurriedType_closed readCurriedType_def list.case if_True)
  also have "\<dots> = (if right \<in> set ?rs then Some (str (compute options left right))
          else readConditional (if ?rs = [] \<and> True then ''='' else '':'') ?rest (str right))"
    by (rule readConditional_branches [OF ind inj' ns'])
  also have "\<dots> = Some (if compute options left right \<in> set (EXPONENTS c)
                 then str (compute options left right) else ''ArithmeticError'')"
    using ne right d by simp
  finally show ?thesis .
qed

lemma genCurriedType_inline_loop_closed:
  "genCurriedType_inline_loop str isExponent spec left rights lines =
     lines @ map (\<lambda>r. indent_inline
                (''R extends '' @ str r @ '' ? '' @ str (spec_compute spec left r) @ '' :''))
       (filter (\<lambda>r. isExponent (spec_compute spec left r) spec) rights)"
  by (induction rights arbitrary: lines) (simp_all add: Let_def)

lemma readInlineConditional_step:
  assumes "CHR '' '' \<notin> set sr"
  shows "readInlineConditional
           ((replicate k (CHR '' '') @ ''R extends '' @ sr @ '' ? '' @ sv @ '' :'') # ls) n =
         (if sr = n then Some sv else readInlineConditional ls n)"
proof -
  let ?body = "''R extends '' @ sr @ '' ? '' @ sv @ '' :''"
  let ?after = "'' ? '' @ sv @ '' :''"
  have b: "stripIndent (replicate k (CHR '' '') @ ?body) = ?body"
    by (intro stripIndent_replicate) auto
  have t: "takeWhile (\<lambda>ch. ch \<noteq> CHR '' '') (sr @ ?after) = sr"
    using takeWhile_nospace [OF assms, of "''? '' @ sv @ '' :''"] by simp
  have s: "startsWith ?body ''R extends ''"
    by (simp add: startsWith_def)
  have r: "drop 10 ?body = sr @ ?after"
    by simp
  have a: "drop (length sr) (sr @ ?after) = ?after"
    by simp
  have sa: "startsWith ?after '' ? ''"
    by (simp add: startsWith_def)
  have ea: "endsWith ?after '' :''"
    by (simp add: endsWith_def)
  have d: "take (length ?after - 5) (drop 3 ?after) = sv"
    by simp
  show ?thesis
    unfolding readInlineConditional.simps b Let_def
    by (simp only: s r t a sa ea d if_True not_True_eq_False if_False simp_thms)
qed

lemma readInlineConditional_default:
  "readInlineConditional ((replicate k (CHR '' '') @ ''never'') # ls) n = Some ''never''"
proof -
  have "stripIndent (replicate k (CHR '' '') @ ''never'') = ''never''"
    by (intro stripIndent_replicate) auto
  then show ?thesis
    by (simp add: startsWith_def Let_def)
qed

lemma readInlineConditional_branches:
  assumes "inj_on str (insert right (set rs))"
    and "\<forall>x \<in> set rs. CHR '' '' \<notin> set (str x)"
  shows "readInlineConditional
           (map (\<lambda>r. replicate k (CHR '' '') @ ''R extends '' @ str r @ '' ? '' @ str (f r) @ '' :'') rs
            @ rest) (str right) =
         (if right \<in> set rs then Some (str (f right))
          else readInlineConditional rest (str right))"
  using assms
proof (induction rs)
  case Nil
  show ?case by simp
next
  case (Cons r rs)
  from Cons.prems have ns: "CHR '' '' \<notin> set (str r)" by simp
  from Cons.prems have eq: "str r = str right \<longleftrightarrow> r = right"
    by (auto simp: inj_on_def)
  from Cons.prems have inj: "inj_on str (insert right (set rs))"
    by (auto simp: inj_on_def)
  from Cons.prems have nss: "\<forall>x \<in> set rs. CHR '' '' \<notin> set (str x)" by simp
  note ih = Cons.IH [OF inj nss]
  show ?case
    unfolding list.map append_Cons [of _ "map _ rs" rest]
    by (simp only: readInlineConditional_step [OF ns] ih) (use eq in auto)
qed


lemma indent_inline_replicate: "indent_inline s = replicate 4 (CHR '' '') @ s"
  by (simp add: indent_inline_def numeral_eq_Suc)

lemma indent_inline_replicate_add:
  "indent_inline (replicate k (CHR '' '') @ s) = replicate (4 + k) (CHR '' '') @ s"
  by (simp add: indent_inline_replicate replicate_add)

lemma genCurriedType_inline_closed:
  "genCurriedType_inline str isExponent spec exponents left =
     (replicate 8 (CHR '' '') @ ''('')
     # (map (\<lambda>r. replicate 12 (CHR '' '') @
                ''R extends '' @ str r @ '' ? '' @ str (spec_compute spec left r) @ '' :'')
          (filter (\<lambda>r. isExponent (spec_compute spec left r) spec) exponents)
        @ [replicate 12 (CHR '' '') @ ''never'', replicate 8 (CHR '' '') @ '')''])"
  by (simp add: genCurriedType_inline_def genCurriedType_inline_loop_closed Let_def comp_def
      indent_inline_def eval_nat_numeral)

lemma readInlineType_genCurriedType_inline:
  assumes inj: "inj_on str (set exponents)"
    and nospace: "\<forall>x \<in> set exponents. CHR '' '' \<notin> set (str x)"
    and right: "right \<in> set exponents"
  shows "readInlineType (genCurriedType_inline str isExponent spec exponents left) (str right) =
           Some (if isExponent (spec_compute spec left right) spec
                 then str (spec_compute spec left right) else ''never'')"
proof -
  let ?rs = "filter (\<lambda>r. isExponent (spec_compute spec left r) spec) exponents"
  let ?rest = "[replicate 12 (CHR '' '') @ ''never'', replicate 8 (CHR '' '') @ '')'']"
  from inj right have inj': "inj_on str (insert right (set ?rs))"
    by (auto simp: inj_on_def)
  from nospace have ns': "\<forall>x \<in> set ?rs. CHR '' '' \<notin> set (str x)"
    by simp
  have o: "stripIndent (replicate 8 (CHR '' '') @ ''('') = ''(''"
    by (intro stripIndent_replicate) auto
  have d: "readInlineConditional ?rest (str right) = Some ''never''"
    by (rule readInlineConditional_default)
  have "readInlineType (genCurriedType_inline str isExponent spec exponents left) (str right) =
        readInlineConditional
          (map (\<lambda>r. replicate 12 (CHR '' '') @
                ''R extends '' @ str r @ '' ? '' @ str (spec_compute spec left r) @ '' :'') ?rs
           @ ?rest) (str right)"
    by (simp only: genCurriedType_inline_closed readInlineType_def list.case o if_True simp_thms)
  also have "\<dots> = (if right \<in> set ?rs then Some (str (spec_compute spec left right))
          else readInlineConditional ?rest (str right))"
    by (rule readInlineConditional_branches [OF inj' ns'])
  also have "\<dots> = Some (if isExponent (spec_compute spec left right) spec
                 then str (spec_compute spec left right) else ''never'')"
    using right d by simp
  finally show ?thesis .
qed

text \<open>
  C1, as amended. For a right exponent of the domain, the entry that the generated lookup
  of a left exponent holds is the result of \<open>compute\<close> when that result is in the domain,
  and otherwise the default of the generated conditional type: \<open>ArithmeticError\<close> in the
  generator of the curried types, where the left exponent has at least one right exponent
  with a result in the domain, and \<open>never\<close> in the generator that inlines the lookup. The
  indentation prepends spaces, and distinct exponents are written differently and without
  spaces.
\<close>

theorem generated_lookup_entry:
  assumes "\<forall>s. \<exists>k. indent c s = replicate k (CHR '' '') @ s"
    and "inj_on str (set (EXPONENTS c))"
    and "\<forall>x \<in> set (EXPONENTS c). CHR '' '' \<notin> set (str x)"
    and "right \<in> set (EXPONENTS c)"
    and "\<exists>r \<in> set (EXPONENTS c). compute options left r \<in> set (EXPONENTS c)"
    and "inj_on str (set exponents)"
    and "\<forall>x \<in> set exponents. CHR '' '' \<notin> set (str x)"
    and "right' \<in> set exponents"
  shows "readCurriedType (genCurriedType str c options left) (str right) =
           Some (if compute options left right \<in> set (EXPONENTS c)
                 then str (compute options left right) else ''ArithmeticError'')
       \<and> readInlineType (genCurriedType_inline str isExponent spec exponents left') (str right') =
           Some (if isExponent (spec_compute spec left' right') spec
                 then str (spec_compute spec left' right') else ''never'')"
  using readCurriedType_genCurriedType [OF assms(1-5)]
    readInlineType_genCurriedType_inline [OF assms(6-8)]
  by (rule conjI)

lemma numberToString_small:
  "numberToString (- 1) = ''-1''" "numberToString 0 = ''0''" "numberToString 1 = ''1''"
  "numberToString 2 = ''2''"
  by (simp_all add: numberToString_def digits.simps digitChar_def)

lemma sampleCommon_simps:
  "EXPONENTS sampleCommon = [- 1, 0, 1]" "indent sampleCommon = indent_inline"
  by (simp_all add: sampleCommon_def)

theorem generated_lookup_entry_witness:
  "readCurriedType (genCurriedType numberToString sampleCommon sampleOptions 1) ''1''
     = Some ''ArithmeticError''
   \<and> readInlineType
       (genCurriedType_inline numberToString sampleIsExponent sampleSpec [- 1, 0, 1] 1) ''-1''
     = Some ''0''"
proof -
  have 1: "\<forall>s. \<exists>k. indent sampleCommon s = replicate k (CHR '' '') @ s"
    by (auto simp: sampleCommon_simps indent_inline_replicate)
  have 2: "inj_on numberToString (set (EXPONENTS sampleCommon))"
    by (simp add: sampleCommon_simps numberToString_small)
  have 3: "\<forall>x \<in> set (EXPONENTS sampleCommon). CHR '' '' \<notin> set (numberToString x)"
    by (simp add: sampleCommon_simps numberToString_small)
  have 4: "1 \<in> set (EXPONENTS sampleCommon)"
    by (simp add: sampleCommon_simps)
  have 5: "\<exists>r \<in> set (EXPONENTS sampleCommon).
             compute sampleOptions 1 r \<in> set (EXPONENTS sampleCommon)"
    by (simp add: sampleCommon_simps sampleOptions_def)
  have 6: "inj_on numberToString (set [- 1, 0, 1])"
    by (simp add: numberToString_small)
  have 7: "\<forall>x \<in> set [- 1, 0, 1]. CHR '' '' \<notin> set (numberToString x)"
    by (simp add: numberToString_small)
  have 8: "- 1 \<in> set [- 1, 0, 1 :: int]"
    by simp
  from generated_lookup_entry [where c = sampleCommon and str = numberToString and right = 1
      and options = sampleOptions and left = 1 and exponents = "[- 1, 0, 1]" and right' = "- 1"
      and isExponent = sampleIsExponent and spec = sampleSpec and left' = 1,
      OF 1 2 3 4 5 6 7 8]
  show ?thesis
    by (simp add: sampleCommon_simps sampleOptions_def sampleSpec_def sampleIsExponent_def
        numberToString_small)
qed

text \<open>
  C1, as stated, fails for the generator that inlines the lookup: 1 + 1 is outside the
  domain -1, 0, 1, and the entry for left 1 and right 1 is \<open>never\<close>, not \<open>ArithmeticError\<close>.
\<close>

theorem inline_lookup_never:
  "\<not> sampleIsExponent (spec_compute sampleSpec 1 1) sampleSpec
   \<and> readInlineType
       (genCurriedType_inline numberToString sampleIsExponent sampleSpec [- 1, 0, 1] 1)
       (numberToString 1)
     = Some ''never''
   \<and> readInlineType
       (genCurriedType_inline numberToString sampleIsExponent sampleSpec [- 1, 0, 1] 1)
       (numberToString 1)
     \<noteq> Some ''ArithmeticError''"
proof -
  have "genCurriedType_inline numberToString sampleIsExponent sampleSpec [- 1, 0, 1] 1 =
        [''        ('', ''            R extends -1 ? 0 :'', ''            R extends 0 ? 1 :'',
         ''            never'', ''        )'']"
    by (simp add: genCurriedType_inline_def sampleSpec_def sampleIsExponent_def
        indent_inline_def numberToString_small)
  then have "readInlineType
       (genCurriedType_inline numberToString sampleIsExponent sampleSpec [- 1, 0, 1] 1)
       (numberToString 1) = Some ''never''"
    by (simp add: readInlineType_def stripIndent_def startsWith_def endsWith_def
        numberToString_small)
  then show ?thesis
    by (simp add: sampleSpec_def sampleIsExponent_def)
qed


lemma genUncurriedType_loop_False:
  "genUncurriedType_loop str c options lefts False lines =
     lines @ map (uncurriedBranch str c options False) lefts"
  by (induction lefts arbitrary: lines)
    (simp_all add: uncurriedBranch_def Let_def split: option.splits)

lemma genUncurriedType_loop_closed:
  "genUncurriedType_loop str c options lefts first lines =
     lines @ map (\<lambda>i. uncurriedBranch str c options (first \<and> i = 0) (lefts ! i)) [0..<length lefts]"
proof (cases lefts)
  case Nil
  then show ?thesis by simp
next
  case (Cons l ls)
  have "map (\<lambda>i. uncurriedBranch str c options (first \<and> i = 0) ((l # ls) ! i)) [0..<length (l # ls)]
        = uncurriedBranch str c options first l # map (uncurriedBranch str c options False) ls"
  proof (rule nth_equalityI)
    show "length (map (\<lambda>i. uncurriedBranch str c options (first \<and> i = 0) ((l # ls) ! i))
            [0..<length (l # ls)]) =
          length (uncurriedBranch str c options first l # map (uncurriedBranch str c options False) ls)"
      by simp
  next
    fix i
    assume "i < length (map (\<lambda>i. uncurriedBranch str c options (first \<and> i = 0) ((l # ls) ! i))
            [0..<length (l # ls)])"
    then have "i < Suc (length ls)" by simp
    then show "map (\<lambda>i. uncurriedBranch str c options (first \<and> i = 0) ((l # ls) ! i))
            [0..<length (l # ls)] ! i =
          (uncurriedBranch str c options first l # map (uncurriedBranch str c options False) ls) ! i"
      by (cases i) (simp_all add: nth_map_upt del: upt_Suc)
  qed
  moreover have "genUncurriedType_loop str c options (l # ls) first lines =
        lines @ uncurriedBranch str c options first l # map (uncurriedBranch str c options False) ls"
    by (simp add: genUncurriedType_loop_False uncurriedBranch_def Let_def split: option.splits)
  ultimately show ?thesis
    using Cons by simp
qed

lemma genUncurriedType_nth:
  assumes "i < length (EXPONENTS c)"
  shows "genUncurriedType str c options ! Suc i =
           uncurriedBranch str c options (i = 0) (EXPONENTS c ! i)"
proof -
  have "genUncurriedType str c options ! Suc i =
        (map (\<lambda>i. uncurriedBranch str c options (True \<and> i = 0) (EXPONENTS c ! i))
           [0..<length (EXPONENTS c)] @ [genErrorCase c, []]) ! i"
    by (simp add: genUncurriedType_def genUncurriedType_loop_closed Let_def)
  also have "\<dots> = uncurriedBranch str c options (i = 0) (EXPONENTS c ! i)"
    using assms by (simp add: nth_append)
  finally show ?thesis .
qed

lemma genOperatorTypes_loop_closed:
  "genOperatorTypes_loop str c options lefts lines =
     lines @ concat (map (genCurriedType str c options)
                       (filter (\<lambda>left. specialCases options left = None) lefts))"
  by (induction lefts arbitrary: lines) simp_all

text \<open>
  C6. For the left exponent at position \<open>i\<close> of \<open>EXPONENTS\<close>, the alternative of the
  uncurried type is the special-case expression when the exponent is listed in
  \<open>specialCases\<close>, and the name of its curried type applied to \<open>R\<close> otherwise;
  \<open>genOperatorTypes\<close> emits, after the uncurried type, the curried types of exactly the
  exponents that are not listed, each declared under the name the alternative refers to.
\<close>

theorem genOperatorTypes_specialCases:
  assumes "i < length (EXPONENTS c)"
  shows "genUncurriedType str c options ! Suc i =
           indent c ((if i = 0 then ''='' else '':'') @ '' L extends '' @ str (EXPONENTS c ! i) @ '' ?'')
           @ '' '' @
           (case specialCases options (EXPONENTS c ! i) of
              Some expression \<Rightarrow> expression
            | None \<Rightarrow> genCurriedTypeName c options (EXPONENTS c ! i) @ ''<R>'')
       \<and> genOperatorTypes str c options =
           join [CHR 0x0A]
             (genFileHeader c @ genImports c @ genUncurriedType str c options @
              concat (map (genCurriedType str c options)
                        (filter (\<lambda>left. specialCases options left = None) (EXPONENTS c))))
       \<and> (EXPONENTS c ! i \<in> set (filter (\<lambda>left. specialCases options left = None) (EXPONENTS c))
            \<longleftrightarrow> specialCases options (EXPONENTS c ! i) = None)
       \<and> hd (genCurriedType str c options (EXPONENTS c ! i)) =
           ''export type '' @ genCurriedTypeName c options (EXPONENTS c ! i) @ ''<N extends Exponent>''"
proof -
  have a: "genUncurriedType str c options ! Suc i =
           indent c ((if i = 0 then ''='' else '':'') @ '' L extends '' @ str (EXPONENTS c ! i) @ '' ?'')
           @ '' '' @
           (case specialCases options (EXPONENTS c ! i) of
              Some expression \<Rightarrow> expression
            | None \<Rightarrow> genCurriedTypeName c options (EXPONENTS c ! i) @ ''<R>'')"
    by (simp only: genUncurriedType_nth [OF assms] uncurriedBranch_def)
  have b: "genOperatorTypes str c options =
           join [CHR 0x0A]
             (genFileHeader c @ genImports c @ genUncurriedType str c options @
              concat (map (genCurriedType str c options)
                        (filter (\<lambda>left. specialCases options left = None) (EXPONENTS c))))"
    by (simp add: genOperatorTypes_def genOperatorTypes_loop_closed Let_def)
  from assms have d: "EXPONENTS c ! i \<in> set (filter (\<lambda>left. specialCases options left = None) (EXPONENTS c))
            \<longleftrightarrow> specialCases options (EXPONENTS c ! i) = None"
    by simp
  have e: "hd (genCurriedType str c options (EXPONENTS c ! i)) =
           ''export type '' @ genCurriedTypeName c options (EXPONENTS c ! i) @ ''<N extends Exponent>''"
    by (simp only: genCurriedType_closed list.sel)
  from a b d e show ?thesis by blast
qed

theorem genOperatorTypes_specialCases_witness:
  "genUncurriedType numberToString sampleCommon sampleOptions ! 2 = ''    : L extends 0 ? R''
   \<and> genUncurriedType numberToString sampleCommon sampleOptions ! 3
       = ''    : L extends 1 ? AddPositive1<R>''
   \<and> filter (\<lambda>left. specialCases sampleOptions left = None) (EXPONENTS sampleCommon) = [- 1, 1]
   \<and> hd (genCurriedType numberToString sampleCommon sampleOptions 1)
       = ''export type AddPositive1<N extends Exponent>''"
proof -
  have 1: "1 < length (EXPONENTS sampleCommon)" and 2: "2 < length (EXPONENTS sampleCommon)"
    by (simp_all add: sampleCommon_simps)
  have f: "filter (\<lambda>left. specialCases sampleOptions left = None) (EXPONENTS sampleCommon) = [- 1, 1]"
    by (simp add: sampleCommon_simps sampleOptions_def)
  from genOperatorTypes_specialCases [OF 1, of numberToString sampleOptions]
    genOperatorTypes_specialCases [OF 2, of numberToString sampleOptions] f
  show ?thesis
    by (simp add: sampleCommon_def sampleOptions_def genCurriedTypeName_def sampleValueName_def
        indent_inline_def numberToString_small eval_nat_numeral)
qed

section \<open>Properties of the measure\<close>

lemma exponentiateUnit_allowed:
  "isAllowedExponent lo hi u k \<Longrightarrow> \<exists>u'. exponentiateUnit lo hi u k = Inr u'"
proof (induction lo hi u k rule: exponentiateUnit.induct)
  case (1 lo hi k)
  show ?case by simp
next
  case (2 lo hi dimension rest k)
  then show ?case by (simp add: isAllowedExponent_def)
next
  case (3 lo hi dimension d rest k)
  from "3.prems" have a: "inDomain lo hi (snd d * k)" and r: "isAllowedExponent lo hi rest k"
    by (simp_all add: isAllowedExponent_def)
  from a have s: "scaleExponent lo hi dimension (snd d) k = Inr (snd d * k)"
    by (simp add: scaleExponent_def)
  from "3.IH" [OF s r] obtain rest' where "exponentiateUnit lo hi rest k = Inr rest'"
    by blast
  with s show ?case by simp
qed

lemma toThe_allowed:
  "isAllowedExponent lo hi (m_unit m) k \<Longrightarrow> \<exists>r. toThe num lo hi m k = Inr r"
  using exponentiateUnit_allowed [of lo hi "m_unit m" k] by (auto simp: toThe_def)

text \<open>
  C7. For measures with equal units, \<open>in\<close> returns the formatted quotient of the two values
  followed by the symbol of the given unit, and exactly \<open>toString()\<close> of the measure when
  the given unit has no symbol.
\<close>

theorem measure_in_quotient:
  assumes "isCompatible (m_unit m) (m_unit u)"
  shows "measure_in num m u =
           Inr (case m_symbol u of
                  Some s \<Rightarrow> num_format num (num_div num (m_value m) (m_value u)) @ '' '' @ s
                | None \<Rightarrow> toString num m)"
  using assms by (simp add: measure_in_def split: option.splits)

theorem measure_in_quotient_witness:
  "measure_in sampleNumeric
     \<lparr>m_value = 6, m_unit = [(''length'', Some (''m'', 1)), (''time'', Some (''s'', 0))],
      m_symbol = None\<rparr>
     \<lparr>m_value = 2, m_unit = [(''length'', Some (''m'', 1))], m_symbol = Some ''fathom''\<rparr>
     = Inr ''3 fathom''
   \<and> measure_in sampleNumeric
     \<lparr>m_value = 6, m_unit = [(''length'', Some (''m'', 1)), (''time'', Some (''s'', 0))],
      m_symbol = None\<rparr>
     \<lparr>m_value = 2, m_unit = [(''length'', Some (''m'', 1))], m_symbol = None\<rparr>
     = Inr ''6 m''"
proof -
  let ?m = "\<lparr>m_value = 6 :: int,
      m_unit = [(''length'', Some (''m'', 1)), (''time'', Some (''s'', 0))], m_symbol = None\<rparr>"
  let ?u = "\<lparr>m_value = 2 :: int, m_unit = [(''length'', Some (''m'', 1))],
      m_symbol = Some ''fathom''\<rparr>"
  let ?v = "\<lparr>m_value = 2 :: int, m_unit = [(''length'', Some (''m'', 1))], m_symbol = None\<rparr>"
  have c: "isCompatible (m_unit ?m) (m_unit ?u)" and d: "isCompatible (m_unit ?m) (m_unit ?v)"
    by (simp_all add: isCompatible_def canonicalUnit_def List.map_filter_def)
  have f: "formatUnit [(''length'', Some (''m'', 1)), (''time'', Some (''s'', 0))] = ''m''"
    by (simp add: formatUnit_eval)
  have n: "numberToString 3 = ''3''" "numberToString 6 = ''6''"
    by (simp_all add: numberToString_def digits_small digitChar_def)
  from measure_in_quotient [OF c, of sampleNumeric] measure_in_quotient [OF d, of sampleNumeric]
  show ?thesis
    by (simp add: sampleNumeric_def toString_def f n)
qed

text \<open>
  C8. \<open>squared\<close> is offered exactly when 2 is an allowed exponent of the unit of the
  measure, \<open>cubed\<close> exactly when 3 is; when offered they are \<open>toThe(2)\<close> and \<open>toThe(3)\<close>,
  which then succeed.
\<close>

theorem squared_cubed_offered:
  "(squared num lo hi m \<noteq> None \<longleftrightarrow> isAllowedExponent lo hi (m_unit m) 2)
   \<and> (cubed num lo hi m \<noteq> None \<longleftrightarrow> isAllowedExponent lo hi (m_unit m) 3)
   \<and> (isAllowedExponent lo hi (m_unit m) 2 \<longrightarrow>
        squared num lo hi m = Some (toThe num lo hi m 2) \<and> (\<exists>r. toThe num lo hi m 2 = Inr r))
   \<and> (isAllowedExponent lo hi (m_unit m) 3 \<longrightarrow>
        cubed num lo hi m = Some (toThe num lo hi m 3) \<and> (\<exists>r. toThe num lo hi m 3 = Inr r))"
  using toThe_allowed [of lo hi m 2 num] toThe_allowed [of lo hi m 3 num]
  by (simp add: squared_def cubed_def)

theorem squared_cubed_offered_witness:
  "isAllowedExponent (- 4) 4 [(''length'', Some (''m'', 2))] 2
   \<and> \<not> isAllowedExponent (- 4) 4 [(''length'', Some (''m'', 2))] 3
   \<and> squared sampleNumeric (- 4) 4
       \<lparr>m_value = 3, m_unit = [(''length'', Some (''m'', 2))], m_symbol = None\<rparr>
     = Some (Inr \<lparr>m_value = 9, m_unit = [(''length'', Some (''m'', 4))], m_symbol = None\<rparr>)
   \<and> cubed sampleNumeric (- 4) 4
       \<lparr>m_value = 3, m_unit = [(''length'', Some (''m'', 2))], m_symbol = None\<rparr>
     = None"
proof -
  let ?m = "\<lparr>m_value = 3 :: int, m_unit = [(''length'', Some (''m'', 2))], m_symbol = None\<rparr>"
  have a: "isAllowedExponent (- 4) 4 (m_unit ?m) 2"
    by (simp add: isAllowedExponent_def inDomain_def)
  have b: "\<not> isAllowedExponent (- 4) 4 (m_unit ?m) 3"
    by (simp add: isAllowedExponent_def inDomain_def)
  have t: "toThe sampleNumeric (- 4) 4 ?m 2 =
           Inr \<lparr>m_value = 9, m_unit = [(''length'', Some (''m'', 4))], m_symbol = None\<rparr>"
    by (simp add: toThe_def scaleExponent_def inDomain_def sampleNumeric_def)
  from squared_cubed_offered [of sampleNumeric "- 4" 4 ?m] a b t
  show ?thesis by simp
qed

end
